theory Spec2Isabelle
  imports Complex_Main
begin

section \<open>JavaScript strings\<close>

text \<open>
  A JavaScript string is a sequence of code units; \<open>length\<close> counts them and
  \<open>slice\<close> cuts between them. They are modelled as \<^typ>\<open>string\<close>, one
  \<^typ>\<open>char\<close> per code unit.
\<close>

text \<open>\<^verbatim>\<open>s.slice(start, end)\<close>: negative positions count from the end, and both are
  clipped to the string.\<close>

definition js_slice :: "string \<Rightarrow> int \<Rightarrow> int \<Rightarrow> string" where
  "js_slice s start fin =
     (let len = int (length s);
          from = (if start < 0 then max (len + start) 0 else min start len);
          to = (if fin < 0 then max (len + fin) 0 else min fin len)
      in take (nat (to - from)) (drop (nat from) s))"

text \<open>\<^verbatim>\<open>s.slice(start)\<close>: to the end of the string.\<close>

definition js_slice_from :: "string \<Rightarrow> int \<Rightarrow> string" where
  "js_slice_from s start = js_slice s start (int (length s))"

text \<open>\<^verbatim>\<open>' '.repeat(n)\<close>. Every call in the renderer passes a count that is not
  negative (a negative one would raise RangeError).\<close>

definition spaces :: "int \<Rightarrow> string" where
  "spaces n = replicate (nat n) CHR '' ''"

section \<open>Layout engine (receiptRenderer.ts)\<close>

definition rpad :: "string \<Rightarrow> int \<Rightarrow> string" where
  "rpad s len =
     (if int (length s) \<ge> len then js_slice s 0 len
      else s @ spaces (len - int (length s)))"

definition lpad :: "string \<Rightarrow> int \<Rightarrow> string" where
  "lpad s len =
     (if int (length s) \<ge> len then js_slice_from s (int (length s) - len)
      else spaces (len - int (length s)) @ s)"

definition rAlign :: "string \<Rightarrow> int \<Rightarrow> string" where
  "rAlign s width = lpad s width"

record cols =
  item :: int
  qty :: int
  price :: int
  amount :: int

definition computeCols :: "int \<Rightarrow> cols" where
  "computeCols tot =
     (let qty = 4; price = 7; amount = 8; gaps = 3;
          item = max 8 (tot - (qty + price + amount + gaps))
      in \<lparr>item = item, qty = qty, price = price, amount = amount\<rparr>)"

definition AMOUNT_GAP :: int where
  "AMOUNT_GAP = 1"

definition amountAlignedRow :: "string \<Rightarrow> string \<Rightarrow> int \<Rightarrow> string" where
  "amountAlignedRow label val width =
     (let cols = computeCols width;
          gap = AMOUNT_GAP;
          leftW = max 1 (width - amount cols - gap)
      in rpad label leftW @ spaces gap @ rAlign val (amount cols))"

subsection \<open>Word wrap\<close>

text \<open>\<^verbatim>\<open>s.split(sep)\<close> for a one-character separator: the pieces between the
  separators, empty pieces included; the empty string gives one empty piece.\<close>

fun js_split :: "char \<Rightarrow> string \<Rightarrow> string list" where
  "js_split sep [] = [[]]"
| "js_split sep (c # cs) =
     (if c = sep then [] # js_split sep cs
      else (case js_split sep cs of [] \<Rightarrow> [[c]] | w # ws \<Rightarrow> (c # w) # ws))"

text \<open>
  The inner loop of \<open>wrap\<close>,
  \<^verbatim>\<open>for (let i = 0; i < w.length; i += width) out.push(w.slice(i, i + width))\<close>.
  It does not return when \<open>width\<close> is not positive, so it is a partial function:
  \<open>None\<close> is the loop that never ends.
\<close>

partial_function (option) chunk_loop :: "string \<Rightarrow> int \<Rightarrow> int \<Rightarrow> string list \<Rightarrow> string list option" where
  "chunk_loop w width i out =
     (if i < int (length w) then chunk_loop w width (i + width) (out @ [js_slice w i (i + width)])
      else Some out)"

declare chunk_loop.simps [code]

text \<open>The loop over the words; the state is the list \<open>out\<close> and the current \<open>line\<close>.\<close>

fun wrap_words :: "int \<Rightarrow> string list \<Rightarrow> string list \<Rightarrow> string \<Rightarrow> (string list \<times> string) option" where
  "wrap_words width [] out line = Some (out, line)"
| "wrap_words width (w # ws) out line =
     (let test = (if line \<noteq> [] then line @ '' '' @ w else w) in
      if int (length test) \<le> width then wrap_words width ws out test
      else
        (let out1 = (if line \<noteq> [] then out @ [line] else out) in
         if int (length w) > width then
           (case chunk_loop w width 0 out1 of
              None \<Rightarrow> None
            | Some out2 \<Rightarrow> wrap_words width ws out2 [])
         else wrap_words width ws out1 w))"

definition wrap :: "string \<Rightarrow> int \<Rightarrow> string list option" where
  "wrap text width =
     (case wrap_words width (js_split CHR '' '' text) [] [] of
        None \<Rightarrow> None
      | Some (out, line) \<Rightarrow> Some (if line \<noteq> [] then out @ [line] else out))"

text \<open>
  The property of the specification, in its words: the words of a text are its maximal
  runs of characters other than the space; a word longer than the width is cut into
  pieces of exactly \<open>width\<close> characters (the last one may be shorter), any other
  word is kept whole.
\<close>

definition words_of :: "string \<Rightarrow> string list" where
  "words_of s = filter (\<lambda>w. w \<noteq> []) (js_split CHR '' '' s)"

function pieces :: "nat \<Rightarrow> string \<Rightarrow> string list" where
  "pieces n w = (if n = 0 \<or> w = [] then [] else take n w # pieces n (drop n w))"
  by pat_completeness auto
termination
  by (relation "measure (\<lambda>(n, w). length w)") auto

definition hard_split :: "nat \<Rightarrow> string \<Rightarrow> string list" where
  "hard_split n w = (if length w > n then pieces n w else [w])"

section \<open>JavaScript numbers\<close>

text \<open>
  A Number is a finite value, NaN or one of the two infinities. Every finite double is a
  rational number, so the finite values are modelled by \<^typ>\<open>rat\<close>, which contains
  them all (the two zeros are one value here). An arithmetic operation rounds its exact
  result to a double, or overflows to an infinity: that step is the parameter
  \<open>rnd\<close> of the operations below, and nothing is assumed about it.
\<close>

datatype jsnum = Fin rat | NaN | PosInf | NegInf

text \<open>\<^verbatim>\<open>Number.isFinite(n)\<close>\<close>

definition isFinite :: "jsnum \<Rightarrow> bool" where
  "isFinite n = (case n of Fin x \<Rightarrow> True | _ \<Rightarrow> False)"

text \<open>Truthiness of a number, as in \<^verbatim>\<open>n ? a : b\<close> and \<^verbatim>\<open>n || d\<close>: zero and NaN
  are falsy.\<close>

definition truthy_num :: "jsnum \<Rightarrow> bool" where
  "truthy_num n = (n \<noteq> Fin 0 \<and> n \<noteq> NaN)"

text \<open>\<^verbatim>\<open>a / b\<close>. Division by zero does not raise: it gives an infinity, or NaN for
  \<open>0 / 0\<close> (the zero divisor is read as \<open>+0\<close>).\<close>

definition js_div :: "(rat \<Rightarrow> jsnum) \<Rightarrow> jsnum \<Rightarrow> jsnum \<Rightarrow> jsnum" where
  "js_div rnd a b =
     (case (a, b) of
        (Fin x, Fin y) \<Rightarrow>
          (if y \<noteq> 0 then rnd (x / y)
           else if x = 0 then NaN else if 0 < x then PosInf else NegInf)
      | (Fin x, NaN) \<Rightarrow> NaN
      | (Fin x, _) \<Rightarrow> Fin 0
      | (NaN, _) \<Rightarrow> NaN
      | (PosInf, Fin y) \<Rightarrow> (if 0 \<le> y then PosInf else NegInf)
      | (NegInf, Fin y) \<Rightarrow> (if 0 \<le> y then NegInf else PosInf)
      | (_, _) \<Rightarrow> NaN)"

subsection \<open>Decimal digits\<close>

text \<open>The decimal digits of an integer that is not negative.\<close>

definition digit :: "int \<Rightarrow> char" where
  "digit d =
     (if d = 0 then CHR ''0'' else if d = 1 then CHR ''1'' else if d = 2 then CHR ''2''
      else if d = 3 then CHR ''3'' else if d = 4 then CHR ''4'' else if d = 5 then CHR ''5''
      else if d = 6 then CHR ''6'' else if d = 7 then CHR ''7'' else if d = 8 then CHR ''8''
      else CHR ''9'')"

function decimal :: "int \<Rightarrow> string" where
  "decimal n = (if n < 10 then [digit n] else decimal (n div 10) @ [digit (n mod 10)])"
  by pat_completeness auto
termination
  by (relation "measure nat") auto

declare decimal.simps [simp del]

text \<open>
  \<^verbatim>\<open>Number.prototype.toString\<close> of a value of at least \<open>10^21\<close>: the digits of the
  significand, a point after the first when there are several, and the exponent. ECMAScript
  takes the shortest significand that reads back as the same double; the model takes all
  the significant digits of the value, which is the same string when the value has at
  most 15 significant digits, and a string of the same shape otherwise.
\<close>

definition exponent_form :: "int \<Rightarrow> string" where
  "exponent_form N =
     (let ds = decimal N;
          e = length ds - 1;
          sig = rev (dropWhile (\<lambda>c. c = CHR ''0'') (rev ds))
      in (if length sig \<le> 1 then sig else hd sig # CHR ''.'' # tl sig) @ ''e+'' @ decimal (int e))"

text \<open>
  \<^verbatim>\<open>n.toFixed(2)\<close>, after ECMAScript's Number.prototype.toFixed: a value that is not
  finite prints as its name; a finite value of magnitude at least \<open>10^21\<close> prints in
  exponent form; any other is rounded to the nearest multiple of \<open>1/100\<close> (the larger
  one on a tie) and printed with a point before its last two digits.
\<close>

definition toFixed2 :: "jsnum \<Rightarrow> string" where
  "toFixed2 v =
     (case v of
        NaN \<Rightarrow> ''NaN''
      | PosInf \<Rightarrow> ''Infinity''
      | NegInf \<Rightarrow> ''-Infinity''
      | Fin x0 \<Rightarrow>
          (let s = (if x0 < 0 then ''-'' else '''');
               x = \<bar>x0\<bar>
           in if x \<ge> 10 ^ 21 then s @ exponent_form \<lfloor>x\<rfloor>
              else
                (let n = \<lfloor>x * 100 + 1 / 2\<rfloor>;
                     m = (if n = 0 then ''0'' else decimal n);
                     k = length m;
                     m = (if k \<le> 2 then replicate (2 + 1 - k) CHR ''0'' @ m else m);
                     k = (if k \<le> 2 then 2 + 1 else k)
                 in s @ take (k - 2) m @ ''.'' @ drop (k - 2) m)))"

subsection \<open>Money and the item row (receiptRenderer.ts)\<close>

definition formatMoney :: "jsnum \<Rightarrow> string" where
  "formatMoney n = toFixed2 (if isFinite n then n else Fin 0)"

text \<open>\<^verbatim>\<open>toInt(v, d)\<close>; the argument \<open>nv\<close> is \<^verbatim>\<open>Number(v)\<close>.\<close>

definition toInt :: "jsnum \<Rightarrow> jsnum \<Rightarrow> jsnum" where
  "toInt nv d = (if isFinite nv then nv else d)"

text \<open>
  A line item as the item table reads it: the name, \<^verbatim>\<open>Number(it.quantity)\<close> and
  \<^verbatim>\<open>Number(it.item_amount ?? it.price ?? 0)\<close>.
\<close>

record line_item =
  item_name :: string
  quantity :: jsnum
  item_amount :: jsnum

definition unitPrice :: "(rat \<Rightarrow> jsnum) \<Rightarrow> jsnum \<Rightarrow> jsnum \<Rightarrow> jsnum" where
  "unitPrice rnd lineTotal qtyN = (if truthy_num qtyN then js_div rnd lineTotal qtyN else lineTotal)"

definition ITEM_NAME_WRAP :: int where
  "ITEM_NAME_WRAP = 30"

text \<open>
  The first row of a line item (the rows of the wrapped rest of the name follow it).
  \<open>numStr\<close> is \<^verbatim>\<open>String(n)\<close> on numbers.
\<close>

definition item_row :: "(jsnum \<Rightarrow> string) \<Rightarrow> (rat \<Rightarrow> jsnum) \<Rightarrow> cols \<Rightarrow> line_item \<Rightarrow> string option" where
  "item_row numStr rnd cols it =
     (let name = item_name it;
          qtyN = toInt (quantity it) (Fin 1);
          lineTotal = item_amount it;
          unit = unitPrice rnd lineTotal qtyN;
          nameWrap = min (item cols) ITEM_NAME_WRAP
      in case wrap name nameWrap of
           None \<Rightarrow> None
         | Some lines \<Rightarrow>
             (let first = (case lines of [] \<Rightarrow> '''' | l # _ \<Rightarrow> l)
              in Some (rpad first (item cols) @ '' '' @ rAlign (numStr qtyN) (qty cols) @ '' ''
                   @ rAlign (formatMoney unit) (price cols) @ '' ''
                   @ rAlign (formatMoney lineTotal) (amount cols))))"

text \<open>The characters \<open>toFixed\<close> prints for a finite number.\<close>

definition money_char :: "char \<Rightarrow> bool" where
  "money_char c = (c \<in> set ''0123456789.-e+'')"

text \<open>The property of the specification: a sign, digits, a point and exactly two digits.\<close>

definition is_digit :: "char \<Rightarrow> bool" where
  "is_digit c = (c \<in> set ''0123456789'')"

definition two_decimals :: "string \<Rightarrow> bool" where
  "two_decimals s =
     (let body = (case s of c # cs \<Rightarrow> (if c = CHR ''-'' then cs else s) | [] \<Rightarrow> s);
          n = length body
      in 4 \<le> n \<and> list_all is_digit (take (n - 3) body) \<and> body ! (n - 3) = CHR ''.''
         \<and> list_all is_digit (drop (n - 2) body))"

section \<open>Printer profiles (prefs.ts)\<close>

text \<open>\<^verbatim>\<open>s.trim()\<close>: the white space and line terminators among the modelled code
  units are removed at both ends.\<close>

definition is_space :: "char \<Rightarrow> bool" where
  "is_space c = (c \<in> set [CHR 0x09, CHR 0x0A, CHR 0x0B, CHR 0x0C, CHR 0x0D, CHR 0x20, CHR 0xA0])"

definition trim :: "string \<Rightarrow> string" where
  "trim s = rev (dropWhile is_space (rev (dropWhile is_space s)))"

definition DEFAULT_NET_PORT :: jsnum where
  "DEFAULT_NET_PORT = Fin 9100"

definition DEFAULT_WIDTH_DOTS :: jsnum where
  "DEFAULT_WIDTH_DOTS = Fin 576"

text \<open>
  \<^verbatim>\<open>NetPrinterProfile\<close>. An optional field is \<open>None\<close> when it is absent. The name is
  optional as well, since \<open>normalizeProfile\<close> provides for a missing one. The number of
  copies is an integer.
\<close>

record NetPrinterProfile =
  name :: "string option"
  host :: string
  port :: "jsnum option"
  widthDots :: "jsnum option"
  enabled :: "bool option"
  copies :: "int option"
  isDefault :: "bool option"

text \<open>\<^verbatim>\<open>a > 0\<close> on numbers.\<close>

definition positive :: "jsnum \<Rightarrow> bool" where
  "positive n = (case n of Fin x \<Rightarrow> 0 < x | PosInf \<Rightarrow> True | _ \<Rightarrow> False)"

definition normalizeProfile :: "NetPrinterProfile \<Rightarrow> NetPrinterProfile" where
  "normalizeProfile p =
     \<lparr>name = Some (case name p of Some n \<Rightarrow> n | None \<Rightarrow> host p),
      host = host p,
      port = Some (case port p of Some n \<Rightarrow> (if positive n then n else DEFAULT_NET_PORT)
                                | None \<Rightarrow> DEFAULT_NET_PORT),
      widthDots = Some (if widthDots p = Some (Fin 384) \<or> widthDots p = Some (Fin 576)
                        then the (widthDots p) else DEFAULT_WIDTH_DOTS),
      enabled = Some (case enabled p of Some b \<Rightarrow> b | None \<Rightarrow> True),
      copies = Some (case copies p of Some c \<Rightarrow> (if 0 < c then c else 1) | None \<Rightarrow> 1),
      isDefault = Some (case isDefault p of Some b \<Rightarrow> b | None \<Rightarrow> False)\<rparr>"

text \<open>\<^verbatim>\<open>parseInt(ds, 10)\<close> on a string of decimal digits.\<close>

definition digit_value :: "char \<Rightarrow> int" where
  "digit_value c = int (length (takeWhile (\<lambda>d. d \<noteq> c) ''0123456789''))"

definition parseInt_digits :: "string \<Rightarrow> int" where
  "parseInt_digits ds = foldl (\<lambda>n c. 10 * n + digit_value c) 0 ds"

text \<open>
  \<open>parseIpToken\<close> of prefs.ts. The pattern \<^verbatim>\<open>/:(\d{2,5})$/\<close> matches when the text
  after the last colon is two to five decimal digits; the host is what stands before that
  colon. The result is \<open>None\<close> for \<^verbatim>\<open>null\<close>, else the host and the optional port.
\<close>

definition after_last_colon :: "string \<Rightarrow> string" where
  "after_last_colon s = rev (takeWhile (\<lambda>c. c \<noteq> CHR '':'') (rev s))"

definition prefs_parseIpToken :: "string \<Rightarrow> (string \<times> int option) option" where
  "prefs_parseIpToken ipToken =
     (if trim ipToken = [] then None
      else
        (let token = trim ipToken;
             ds = after_last_colon token
         in if CHR '':'' \<in> set token \<and> 2 \<le> length ds \<and> length ds \<le> 5 \<and> list_all is_digit ds
            then
              (let port = parseInt_digits ds;
                   host = js_slice token 0 (int (length token) - int (length ds + 1))
               in if host = [] then None else Some (host, Some port))
            else Some (token, None)))"

text \<open>\<^verbatim>\<open>list.find(pred)\<close>\<close>

definition js_find :: "('a \<Rightarrow> bool) \<Rightarrow> 'a list \<Rightarrow> 'a option" where
  "js_find pred xs = (case filter pred xs of [] \<Rightarrow> None | x # _ \<Rightarrow> Some x)"

definition prefs_match :: "string \<Rightarrow> int option \<Rightarrow> NetPrinterProfile \<Rightarrow> bool" where
  "prefs_match h tp p =
     (if enabled p \<noteq> Some True then False
      else if host p \<noteq> h then False
      else case tp of
             Some n \<Rightarrow>
               (let pPort = (case port p of Some m \<Rightarrow> (if positive m then m else DEFAULT_NET_PORT)
                                            | None \<Rightarrow> DEFAULT_NET_PORT)
                in pPort = Fin (of_int n))
           | None \<Rightarrow> True)"

definition resolveSavedPrinterByIpTokenInList ::
    "string \<Rightarrow> NetPrinterProfile list \<Rightarrow> NetPrinterProfile option" where
  "resolveSavedPrinterByIpTokenInList ipToken list =
     (case prefs_parseIpToken ipToken of
        None \<Rightarrow> None
      | Some (h, tp) \<Rightarrow>
          (let normalizedList = map normalizeProfile list
           in js_find (prefs_match h tp) normalizedList))"

section \<open>Documents\<close>

text \<open>
  The receipt document is a JSON value that the code reads without a schema.
  \<open>JUndef\<close> is \<^verbatim>\<open>undefined\<close>, the value of an absent property. An object is the list
  of its properties; the first binding of a key is the property.
\<close>

datatype json =
    JUndef
  | JNull
  | JBool bool
  | JNum jsnum
  | JStr string
  | JArr "json list"
  | JObj "(string \<times> json) list"

datatype error = TypeError | PrintFailed | SdkError | ConnectFailed

text \<open>\<^verbatim>\<open>o?.[k]\<close> for the property names the code uses (none of them is a property
  of a string or of an array).\<close>

definition at_key :: "json \<Rightarrow> string \<Rightarrow> json" where
  "at_key obj k =
     (case obj of
        JObj kvs \<Rightarrow> (case map_of kvs k of Some v \<Rightarrow> v | None \<Rightarrow> JUndef)
      | _ \<Rightarrow> JUndef)"


definition truthy :: "json \<Rightarrow> bool" where
  "truthy v =
     (case v of
        JUndef \<Rightarrow> False
      | JNull \<Rightarrow> False
      | JBool b \<Rightarrow> b
      | JNum n \<Rightarrow> truthy_num n
      | JStr s \<Rightarrow> s \<noteq> []
      | _ \<Rightarrow> True)"

text \<open>\<^verbatim>\<open>xs.join(sep)\<close> on strings.\<close>

fun join_with :: "string \<Rightarrow> string list \<Rightarrow> string" where
  "join_with sep [] = []"
| "join_with sep [x] = x"
| "join_with sep (x # y # ys) = x @ sep @ join_with sep (y # ys)"

text \<open>\<^verbatim>\<open>String(v)\<close> and the conversion in a template literal; \<open>numStr\<close> is the
  conversion of a number.\<close>

fun ToString :: "(jsnum \<Rightarrow> string) \<Rightarrow> json \<Rightarrow> string" where
  "ToString numStr JUndef = ''undefined''"
| "ToString numStr JNull = ''null''"
| "ToString numStr (JBool b) = (if b then ''true'' else ''false'')"
| "ToString numStr (JNum n) = numStr n"
| "ToString numStr (JStr s) = s"
| "ToString numStr (JArr xs) =
     join_with '','' (map (\<lambda>x. if x = JUndef \<or> x = JNull then [] else ToString numStr x) xs)"
| "ToString numStr (JObj kvs) = ''[object Object]''"








subsection \<open>Payloads\<close>






section \<open>Routing (DrawerContent.tsx)\<close>









datatype target_type = cashier | kitchen

text \<open>A routing target; \<open>titem\<close> is \<open>JUndef\<close> when the target has no item.\<close>

record target =
  profile :: NetPrinterProfile
  ttype :: target_type
  blockIdx :: "nat option"
  titem :: json





subsection \<open>Deduplication\<close>

definition itemKey :: "(jsnum \<Rightarrow> string) \<Rightarrow> json \<Rightarrow> string" where
  "itemKey numStr it =
     (if truthy it then
        (if truthy (at_key it ''item_name'') then ToString numStr (at_key it ''item_name'') else [])
        @ ''#'' @
        (if truthy (at_key it ''display_index'') then ToString numStr (at_key it ''display_index'') else [])
      else [])"

text \<open>\<^verbatim>\<open>t.profile.port || DEFAULT_NET_PORT\<close>\<close>

definition keyPort :: "NetPrinterProfile \<Rightarrow> jsnum" where
  "keyPort p = (case port p of Some n \<Rightarrow> (if truthy_num n then n else DEFAULT_NET_PORT)
                             | None \<Rightarrow> DEFAULT_NET_PORT)"

definition type_name :: "target_type \<Rightarrow> string" where
  "type_name ty = (case ty of cashier \<Rightarrow> ''cashier'' | kitchen \<Rightarrow> ''kitchen'')"

definition targetKey :: "(jsnum \<Rightarrow> string) \<Rightarrow> target \<Rightarrow> string" where
  "targetKey numStr t =
     host (profile t) @ '':'' @ numStr (keyPort (profile t)) @ ''|'' @ type_name (ttype t)
       @ ''|b'' @ numStr (case blockIdx t of Some i \<Rightarrow> Fin (of_nat i) | None \<Rightarrow> Fin (- 1))
       @ ''|'' @ itemKey numStr (titem t)"

text \<open>The filter with the set \<open>seen\<close> of the keys met so far.\<close>

fun dedupe :: "('a \<Rightarrow> string) \<Rightarrow> string list \<Rightarrow> 'a list \<Rightarrow> 'a list" where
  "dedupe key seen [] = []"
| "dedupe key seen (t # ts) =
     (if key t \<in> set seen then dedupe key seen ts else t # dedupe key (key t # seen) ts)"

definition uniqueTargets :: "(jsnum \<Rightarrow> string) \<Rightarrow> target list \<Rightarrow> target list" where
  "uniqueTargets numStr targets = dedupe (targetKey numStr) [] targets"

text \<open>The identity of a target that the specification names: host, port, section kind,
  block index and the item key.\<close>

definition target_identity ::
    "(jsnum \<Rightarrow> string) \<Rightarrow> target \<Rightarrow> string \<times> jsnum \<times> target_type \<times> nat option \<times> string" where
  "target_identity numStr t =
     (host (profile t), keyPort (profile t), ttype t, blockIdx t, itemKey numStr (titem t))"

text \<open>The key is a rendering of the identity.\<close>

definition render_identity ::
    "(jsnum \<Rightarrow> string) \<Rightarrow> string \<times> jsnum \<times> target_type \<times> nat option \<times> string \<Rightarrow> string" where
  "render_identity numStr = (\<lambda>(h, p, ty, bi, ik).
     h @ '':'' @ numStr p @ ''|'' @ type_name ty
       @ ''|b'' @ numStr (case bi of Some i \<Rightarrow> Fin (of_nat i) | None \<Rightarrow> Fin (- 1))
       @ ''|'' @ ik)"

subsection \<open>Printing the targets\<close>













section \<open>The conversions of the examples\<close>


definition integerToString :: "jsnum \<Rightarrow> string" where
  "integerToString n =
     (case n of
        Fin x \<Rightarrow> (if x < 0 then ''-'' else []) @ decimal \<lfloor>\<bar>x\<bar>\<rfloor>
      | NaN \<Rightarrow> ''NaN''
      | PosInf \<Rightarrow> ''Infinity''
      | NegInf \<Rightarrow> ''-Infinity'')"







section \<open>Paper cut (blePrinter.ts, netPrinter.ts)\<close>

text \<open>
  The printer library and the Bluetooth library are outside the code. A call to them
  resolves, resolves to \<^verbatim>\<open>null\<close>, or rejects: that is decided by the parameter \<open>sdk\<close>
  from the calls made so far and the call at hand. Which functions a build of the library
  has is the record of capabilities. The state is the list of the calls made, in order;
  an operation returns a value or raises, and the new state.
\<close>

datatype sdk_call =
    PrintRawBase64 "nat list"
  | PrintRawArray "nat list"
  | PrintText string
  | CutPaper
  | ConnectClassic bool
  | WriteClassic "nat list"
  | DisconnectClassic

datatype outcome = Resolves | ResolvesNull | Rejects

type_synonym sdk = "sdk_call list \<Rightarrow> sdk_call \<Rightarrow> outcome"

type_synonym 'a io = "sdk_call list \<Rightarrow> (error + 'a) \<times> sdk_call list"

definition ret :: "'a \<Rightarrow> 'a io" where
  "ret x tr = (Inr x, tr)"

definition throw :: "error \<Rightarrow> 'a io" where
  "throw e tr = (Inl e, tr)"

definition io_bind :: "'a io \<Rightarrow> ('a \<Rightarrow> 'b io) \<Rightarrow> 'b io" where
  "io_bind m f tr = (case m tr of (Inl e, tr') \<Rightarrow> (Inl e, tr') | (Inr x, tr') \<Rightarrow> f x tr')"

text \<open>\<^verbatim>\<open>try { m } catch (e) { h }\<close>\<close>

definition try_catch :: "'a io \<Rightarrow> (error \<Rightarrow> 'a io) \<Rightarrow> 'a io" where
  "try_catch m h tr = (case m tr of (Inl e, tr') \<Rightarrow> h e tr' | (Inr x, tr') \<Rightarrow> (Inr x, tr'))"

text \<open>\<^verbatim>\<open>try { m } finally { fin }\<close>\<close>

definition try_finally :: "'a io \<Rightarrow> unit io \<Rightarrow> 'a io" where
  "try_finally m fin tr =
     (case m tr of
        (r, tr') \<Rightarrow> (case fin tr' of (Inl e, tr'') \<Rightarrow> (Inl e, tr'') | (Inr u, tr'') \<Rightarrow> (r, tr'')))"

text \<open>An awaited call; its value is whether the result is truthy.\<close>

definition invoke :: "sdk \<Rightarrow> sdk_call \<Rightarrow> bool io" where
  "invoke sdk c tr =
     (case sdk tr c of
        Resolves \<Rightarrow> (Inr True, tr @ [c])
      | ResolvesNull \<Rightarrow> (Inr False, tr @ [c])
      | Rejects \<Rightarrow> (Inl SdkError, tr @ [c]))"

datatype cut_mode = full | partial

subsection \<open>NetPrinterService\<close>

record net_caps =
  net_printRawData :: bool
  net_printText :: bool
  net_cutPaper :: bool

definition net_printRaw :: "net_caps \<Rightarrow> sdk \<Rightarrow> nat list \<Rightarrow> unit io" where
  "net_printRaw caps sdk bytes =
     (if \<not> net_printRawData caps then ret ()
      else try_catch (io_bind (invoke sdk (PrintRawBase64 bytes)) (\<lambda>_. ret ()))
             (\<lambda>eBase64. try_catch (io_bind (invoke sdk (PrintRawArray bytes)) (\<lambda>_. ret ()))
                (\<lambda>eArr. ret ())))"

definition net_tries :: "cut_mode \<Rightarrow> nat list list" where
  "net_tries mode =
     [if mode = full then [0x1D, 0x56, 0x00] else [0x1D, 0x56, 0x01],
      [0x1D, 0x56, 0x42, 0x03],
      if mode = full then [0x1B, 0x69] else [0x1B, 0x6D]]"

text \<open>\<^verbatim>\<open>for (const seq of tries) { try { await this.printRaw(seq); return; } catch {} }\<close>\<close>

primrec net_try_loop :: "net_caps \<Rightarrow> sdk \<Rightarrow> nat list list \<Rightarrow> unit io" where
  "net_try_loop caps sdk [] = ret ()"
| "net_try_loop caps sdk (seq # rest) =
     try_catch (net_printRaw caps sdk seq) (\<lambda>e. net_try_loop caps sdk rest)"

definition net_cut :: "net_caps \<Rightarrow> sdk \<Rightarrow> cut_mode \<Rightarrow> unit io" where
  "net_cut caps sdk mode =
     io_bind (try_catch (net_printRaw caps sdk [0x1B, 0x64, 0x03]) (\<lambda>e. ret ())) (\<lambda>_.
     io_bind (try_catch (if net_printText caps
                         then io_bind (invoke sdk (PrintText (replicate 3 (CHR 0x0A)))) (\<lambda>_. ret ())
                         else ret ())
                (\<lambda>e. ret ())) (\<lambda>_.
     io_bind (if net_cutPaper caps
              then try_catch (io_bind (invoke sdk CutPaper) (\<lambda>_. ret True)) (\<lambda>e. ret False)
              else ret False) (\<lambda>cutDone.
     if cutDone then ret () else net_try_loop caps sdk (net_tries mode))))"

subsection \<open>BLEPrinterService\<close>

record ble_caps =
  ble_printRawData :: bool
  ble_printText :: bool
  classic_disconnect :: bool

definition tryBleRaw :: "ble_caps \<Rightarrow> sdk \<Rightarrow> nat list \<Rightarrow> bool io" where
  "tryBleRaw caps sdk bytes =
     (if \<not> ble_printRawData caps then ret False
      else try_catch (io_bind (invoke sdk (PrintRawBase64 bytes)) (\<lambda>_. ret True))
             (\<lambda>e. try_catch (io_bind (invoke sdk (PrintRawArray bytes)) (\<lambda>_. ret True))
                (\<lambda>e. ret False)))"

text \<open>\<open>sendClassicOnce\<close>; \<open>mac\<close> is the address of the connected printer, \<open>None\<close>
  while it is \<^verbatim>\<open>null\<close>.\<close>

definition sendClassicOnce :: "string option \<Rightarrow> ble_caps \<Rightarrow> sdk \<Rightarrow> nat list \<Rightarrow> bool io" where
  "sendClassicOnce mac caps sdk bytes =
     (case mac of
        None \<Rightarrow> ret False
      | Some m \<Rightarrow>
          if m = [] then ret False
          else try_finally
            (try_catch
               (io_bind (try_catch (invoke sdk (ConnectClassic True)) (\<lambda>e. ret False)) (\<lambda>conn.
                io_bind (if \<not> conn then invoke sdk (ConnectClassic False) else ret conn) (\<lambda>conn.
                if \<not> conn then throw ConnectFailed
                else io_bind (invoke sdk (WriteClassic bytes)) (\<lambda>_. ret True))))
               (\<lambda>e. ret False))
            (try_catch (if classic_disconnect caps
                        then io_bind (invoke sdk DisconnectClassic) (\<lambda>_. ret ())
                        else ret ())
               (\<lambda>e. ret ())))"

definition ble_sequences :: "cut_mode \<Rightarrow> nat list list" where
  "ble_sequences mode =
     [if mode = full then [0x1D, 0x56, 0x00] else [0x1D, 0x56, 0x01],
      [0x1D, 0x56, 0x41, 0x00],
      [0x1D, 0x56, 0x42, 0x03],
      if mode = full then [0x1B, 0x69] else [0x1B, 0x6D]]"

text \<open>The two loops over the sequences; the value is whether a sequence was sent, after
  which \<open>cut\<close> returns.\<close>

primrec ble_raw_loop :: "ble_caps \<Rightarrow> sdk \<Rightarrow> nat list list \<Rightarrow> bool io" where
  "ble_raw_loop caps sdk [] = ret False"
| "ble_raw_loop caps sdk (seq # rest) =
     io_bind (tryBleRaw caps sdk seq) (\<lambda>ok. if ok then ret True else ble_raw_loop caps sdk rest)"

primrec ble_classic_loop :: "string option \<Rightarrow> ble_caps \<Rightarrow> sdk \<Rightarrow> nat list list \<Rightarrow> bool io" where
  "ble_classic_loop mac caps sdk [] = ret False"
| "ble_classic_loop mac caps sdk (seq # rest) =
     io_bind (sendClassicOnce mac caps sdk seq)
       (\<lambda>ok. if ok then ret True else ble_classic_loop mac caps sdk rest)"

definition ble_cut :: "string option \<Rightarrow> ble_caps \<Rightarrow> sdk \<Rightarrow> cut_mode \<Rightarrow> unit io" where
  "ble_cut mac caps sdk mode =
     io_bind (tryBleRaw caps sdk [0x1B, 0x64, 0x05]) (\<lambda>fed.
     io_bind (if \<not> fed
              then try_catch (if ble_printText caps
                              then io_bind (invoke sdk (PrintText (replicate 5 (CHR 0x0A)))) (\<lambda>_. ret ())
                              else throw TypeError)
                     (\<lambda>e. ret ())
              else ret ()) (\<lambda>_.
     io_bind (ble_raw_loop caps sdk (ble_sequences mode)) (\<lambda>sent.
     if sent then ret ()
     else io_bind (ble_classic_loop mac caps sdk (ble_sequences mode)) (\<lambda>_. ret ()))))"

text \<open>A library build with raw bytes and text but no native cut, whose printer rejects the
  partial-cut opcode \<open>GS V 1\<close> and accepts every other call.\<close>

definition rejecting_caps :: net_caps where
  "rejecting_caps = \<lparr>net_printRawData = True, net_printText = True, net_cutPaper = False\<rparr>"

definition rejecting_sdk :: sdk where
  "rejecting_sdk tr c =
     (if c = PrintRawBase64 [0x1D, 0x56, 0x01] \<or> c = PrintRawArray [0x1D, 0x56, 0x01]
      then Rejects else Resolves)"

text \<open>An operation that returns a value from every state.\<close>

definition never_raises :: "'a io \<Rightarrow> bool" where
  "never_raises m = (\<forall>tr. \<exists>x tr'. m tr = (Inr x, tr'))"

section \<open>Word wrap\<close>

declare pieces.simps [simp del]

lemma js_split_nonempty: "js_split sep s \<noteq> []"
  by (induction s) (auto split: list.splits)

lemma js_split_append: "js_split sep (a @ sep # b) = js_split sep a @ js_split sep b"
  by (induction a) (auto split: list.splits simp: js_split_nonempty)

lemma js_split_no_sep: "sep \<notin> set w \<Longrightarrow> js_split sep w = [w]"
  by (induction w) (auto split: list.splits)

lemma js_split_parts: "p \<in> set (js_split sep s) \<Longrightarrow> sep \<notin> set p"
  by (induction s arbitrary: p) (auto split: list.splits if_splits)

lemma words_of_append: "words_of (a @ CHR '' '' # b) = words_of a @ words_of b"
  by (simp add: words_of_def js_split_append)

lemma words_of_word: "CHR '' '' \<notin> set w \<Longrightarrow> words_of w = (if w = [] then [] else [w])"
  by (simp add: words_of_def js_split_no_sep)

lemma concat_pieces: "0 < n \<Longrightarrow> concat (pieces n w) = w"
  by (induction n w rule: pieces.induct) (subst pieces.simps, auto)

lemma pieces_parts: "p \<in> set (pieces n w) \<Longrightarrow> length p \<le> n \<and> p \<noteq> [] \<and> set p \<subseteq> set w"
proof (induction n w arbitrary: p rule: pieces.induct)
  case (1 n w)
  from "1.prems" have nw: "\<not> (n = 0 \<or> w = [])" by (subst (asm) pieces.simps) (auto split: if_splits)
  from "1.prems" nw have "p = take n w \<or> p \<in> set (pieces n (drop n w))"
    by (subst (asm) pieces.simps) auto
  then show ?case
  proof
    assume "p = take n w" then show ?thesis using nw by (auto dest: in_set_takeD)
  next
    assume "p \<in> set (pieces n (drop n w))"
    from "1.IH" [OF nw this] show ?thesis by (auto dest: in_set_dropD)
  qed
qed

lemma chunk_loop_pieces:
  "0 < width \<Longrightarrow> 0 \<le> i \<Longrightarrow>
   chunk_loop w width i out = Some (out @ pieces (nat width) (drop (nat i) w))"
proof (induction "length w - nat i" arbitrary: i out rule: less_induct)
  case less
  show ?case
  proof (cases "i < int (length w)")
    case False
    then have "drop (nat i) w = []" by simp
    then show ?thesis using False by (subst chunk_loop.simps, subst pieces.simps) simp
  next
    case True
    have sl: "js_slice w i (i + width) = take (nat width) (drop (nat i) w)"
      using True less.prems by (auto simp: js_slice_def Let_def min_def take_drop nat_add_distrib
          intro!: arg_cong2 [where f = take])
    have dr: "drop (nat (i + width)) w = drop (nat width) (drop (nat i) w)"
      using less.prems by (simp add: nat_add_distrib add.commute)
    have "chunk_loop w width (i + width) (out @ [js_slice w i (i + width)]) =
        Some ((out @ [js_slice w i (i + width)]) @ pieces (nat width) (drop (nat (i + width)) w))"
      using True less.prems by (intro less.hyps) auto
    moreover have "pieces (nat width) (drop (nat i) w) =
        take (nat width) (drop (nat i) w) # pieces (nat width) (drop (nat width) (drop (nat i) w))"
      using True less.prems by (subst pieces.simps) auto
    ultimately show ?thesis
      using True by (subst chunk_loop.simps) (simp add: sl dr)
  qed
qed

lemma concat_map_singletons: "\<forall>p \<in> set xs. f p = [p] \<Longrightarrow> concat (map f xs) = xs"
  by (induction xs) auto

lemma words_of_piece:
  assumes "CHR '' '' \<notin> set w"
  shows "concat (map words_of (pieces n w)) = pieces n w"
proof -
  have "words_of p = [p]" if "p \<in> set (pieces n w)" for p
  proof -
    from pieces_parts [OF that] have "p \<noteq> []" and "set p \<subseteq> set w" by auto
    with assms have "CHR '' '' \<notin> set p" by blast
    with \<open>p \<noteq> []\<close> show ?thesis by (simp add: words_of_word)
  qed
  then have "\<forall>p \<in> set (pieces n w). words_of p = [p]" by blast
  then show ?thesis by (rule concat_map_singletons)
qed

lemma words_of_Nil: "words_of [] = []"
  by (simp add: words_of_def)

lemma wrap_words_inv:
  assumes "0 < width"
    and "\<forall>w \<in> set ws. CHR '' '' \<notin> set w"
    and "int (length line) \<le> width"
    and "\<forall>l \<in> set out. int (length l) \<le> width"
  shows "\<exists>out' line'. wrap_words width ws out line = Some (out', line')
    \<and> int (length line') \<le> width
    \<and> (\<forall>l \<in> set out'. int (length l) \<le> width)
    \<and> concat (map words_of out') @ words_of line' =
        concat (map words_of out) @ words_of line
          @ concat (map (hard_split (nat width)) (filter (\<lambda>w. w \<noteq> []) ws))"
  using assms
proof (induction ws arbitrary: out line)
  case Nil
  then show ?case by simp
next
  case (Cons w ws)
  have nosp: "CHR '' '' \<notin> set w" and rest: "\<forall>w \<in> set ws. CHR '' '' \<notin> set w"
    using Cons.prems(2) by auto
  let ?test = "if line \<noteq> [] then line @ '' '' @ w else w"
  let ?tail = "concat (map (hard_split (nat width)) (filter (\<lambda>w. w \<noteq> []) ws))"
  show ?case
  proof (cases "int (length ?test) \<le> width")
    case True
    have fit: "\<not> nat width < length w" using True by (auto split: if_splits)
    have wt: "words_of ?test = words_of line @ (if w = [] then [] else [w])"
      using nosp by (auto simp: words_of_append words_of_word words_of_Nil)
    have step: "wrap_words width (w # ws) out line = wrap_words width ws out ?test"
      using True by (simp add: Let_def)
    have tl: "concat (map (hard_split (nat width)) (filter (\<lambda>w. w \<noteq> []) (w # ws)))
        = (if w = [] then [] else [w]) @ ?tail"
      using fit by (simp add: hard_split_def)
    from Cons.IH [OF Cons.prems(1) rest True Cons.prems(4)]
    show ?thesis unfolding step tl wt by simp
  next
    case False
    let ?out1 = "if line \<noteq> [] then out @ [line] else out"
    have o1: "\<forall>l \<in> set ?out1. int (length l) \<le> width"
      using Cons.prems(3,4) by auto
    have w1: "concat (map words_of ?out1) = concat (map words_of out) @ words_of line"
      by (simp add: words_of_Nil)
    have tl: "concat (map (hard_split (nat width)) (filter (\<lambda>w. w \<noteq> []) (w # ws)))
        = (if w = [] then [] else hard_split (nat width) w) @ ?tail"
      by simp
    show ?thesis
    proof (cases "int (length w) > width")
      case long: True
      let ?out2 = "?out1 @ pieces (nat width) w"
      have cl: "chunk_loop w width 0 ?out1 = Some ?out2"
        using chunk_loop_pieces [OF Cons.prems(1), of 0 w ?out1] by simp
      have o2: "\<forall>l \<in> set ?out2. int (length l) \<le> width"
        using o1 pieces_parts [of _ "nat width" w] Cons.prems(1) by fastforce
      have e: "int (length ([]::string)) \<le> width" using Cons.prems(1) by simp
      have nl: "nat width < length w" using long Cons.prems(1) by (simp add: nat_less_iff)
      have w2: "concat (map words_of ?out2) =
          concat (map words_of out) @ words_of line @ hard_split (nat width) w"
        using nl w1 words_of_piece [OF nosp] by (simp add: hard_split_def)
      have wne: "w \<noteq> []" using long Cons.prems(1) by auto
      have step: "wrap_words width (w # ws) out line = wrap_words width ws ?out2 []"
        using False long cl by (simp add: Let_def)
      from Cons.IH [OF Cons.prems(1) rest e o2]
      show ?thesis unfolding step tl w2 using wne by (simp add: words_of_Nil)
    next
      case short: False
      have l: "int (length w) \<le> width" using short by simp
      have ns: "\<not> nat width < length w" using short Cons.prems(1) by (simp add: nat_less_iff)
      have ww: "words_of w = (if w = [] then [] else hard_split (nat width) w)"
        using ns nosp by (simp add: words_of_word hard_split_def)
      have step: "wrap_words width (w # ws) out line = wrap_words width ws ?out1 w"
        using False short by (simp add: Let_def)
      from Cons.IH [OF Cons.prems(1) rest l o1]
      show ?thesis unfolding step tl w1 ww by simp
    qed
  qed
qed

text \<open>
  C1. For every width \<open>W\<close> from 24 to 64 and every text, \<open>wrap\<close> returns; each line
  it returns is at most \<open>W\<close> characters long; and the words of the lines, read in
  order, are the words of the text in their order, where a word longer than \<open>W\<close>
  appears as its pieces of \<open>W\<close> characters, whose concatenation is the word. No word
  is lost or repeated.
\<close>

theorem wrap_lines_fit_and_keep_words:
  assumes "24 \<le> W" and "W \<le> 64"
  shows "\<exists>lines. wrap text W = Some lines
    \<and> (\<forall>l \<in> set lines. int (length l) \<le> W)
    \<and> concat (map words_of lines) = concat (map (hard_split (nat W)) (words_of text))
    \<and> (\<forall>w. concat (hard_split (nat W) w) = w)"
proof -
  have pos: "0 < W" using assms by simp
  have sp: "\<forall>w \<in> set (js_split CHR '' '' text). CHR '' '' \<notin> set w"
    by (auto dest: js_split_parts)
  obtain out line where r: "wrap_words W (js_split CHR '' '' text) [] [] = Some (out, line)"
    and ll: "int (length line) \<le> W" and lo: "\<forall>l \<in> set out. int (length l) \<le> W"
    and ws: "concat (map words_of out) @ words_of line =
        concat (map (hard_split (nat W)) (words_of text))"
    using wrap_words_inv [OF pos sp, of "[]" "[]"] pos by (auto simp: words_of_def)
  let ?lines = "if line \<noteq> [] then out @ [line] else out"
  have "wrap text W = Some ?lines" by (simp add: wrap_def r)
  moreover have "\<forall>l \<in> set ?lines. int (length l) \<le> W" using ll lo by auto
  moreover have "concat (map words_of ?lines) = concat (map (hard_split (nat W)) (words_of text))"
    using ws by (auto simp: words_of_Nil)
  moreover have "\<forall>w. concat (hard_split (nat W) w) = w"
    using pos by (simp add: hard_split_def concat_pieces)
  ultimately show ?thesis by blast
qed

theorem wrap_lines_fit_and_keep_words_witness:
  "wrap ''Espresso Macchiato supercalifragilisticexpialidocious'' 24 =
     Some [''Espresso Macchiato'', ''supercalifragilisticexpi'', ''alidocious'']
   \<and> list_all (\<lambda>l. int (length l) \<le> 24)
       [''Espresso Macchiato'', ''supercalifragilisticexpi'', ''alidocious'']
   \<and> concat (map words_of [''Espresso Macchiato'', ''supercalifragilisticexpi'', ''alidocious''])
     = concat (map (hard_split (nat 24))
         (words_of ''Espresso Macchiato supercalifragilisticexpialidocious''))"
proof -
  let ?t = "''Espresso Macchiato supercalifragilisticexpialidocious''"
  let ?L = "[''Espresso Macchiato'', ''supercalifragilisticexpi'', ''alidocious'']"
  have v: "wrap ?t 24 = Some ?L" by code_simp
  obtain lines where "wrap ?t 24 = Some lines"
    and "\<forall>l \<in> set lines. int (length l) \<le> 24"
    and "concat (map words_of lines) = concat (map (hard_split (nat 24)) (words_of ?t))"
    using wrap_lines_fit_and_keep_words [of 24 ?t] by auto
  with v show ?thesis by (simp add: list_all_iff)
qed

lemma wrap_returns: "0 < W \<Longrightarrow> \<exists>lines. wrap text W = Some lines"
proof -
  assume pos: "0 < W"
  have sp: "\<forall>w \<in> set (js_split CHR '' '' text). CHR '' '' \<notin> set w"
    by (auto dest: js_split_parts)
  obtain out line where "wrap_words W (js_split CHR '' '' text) [] [] = Some (out, line)"
    using wrap_words_inv [OF pos sp, of "[]" "[]"] pos by auto
  then show ?thesis by (simp add: wrap_def)
qed

section \<open>Money formatting\<close>

lemma is_digit_digit: "is_digit (digit d)"
  by (simp add: digit_def is_digit_def)

lemma decimal_digits: "list_all is_digit (decimal n)"
  by (induction n rule: decimal.induct) (subst decimal.simps, simp add: is_digit_digit)

lemma is_digit_not_minus: "is_digit c \<Longrightarrow> c \<noteq> CHR ''-''"
  by (auto simp: is_digit_def)

lemma zeros_digits: "list_all is_digit (replicate n CHR ''0'')"
  by (simp add: list_all_iff is_digit_def)

lemma two_decimals_point:
  assumes "list_all is_digit ds" and "3 \<le> length ds" and "sg = [] \<or> sg = ''-''"
  shows "two_decimals (sg @ take (length ds - 2) ds @ ''.'' @ drop (length ds - 2) ds)"
proof -
  let ?a = "take (length ds - 2) ds" and ?b = "drop (length ds - 2) ds"
  let ?body = "?a @ ''.'' @ ?b"
  have la: "length ?a = length ds - 2" and lb: "length ?b = 2"
    using assms(2) by auto
  have a: "list_all is_digit ?a" and b: "list_all is_digit ?b"
    using assms(1) by (auto simp: list_all_iff dest: in_set_takeD in_set_dropD)
  have ane: "?a \<noteq> []" using assms(2) by auto
  then obtain c cs where acs: "?a = c # cs" by (cases ?a) auto
  with a have "c \<noteq> CHR ''-''" by (auto dest: is_digit_not_minus)
  then have strip: "(case sg @ ?body of c # cs \<Rightarrow> (if c = CHR ''-'' then cs else sg @ ?body) | [] \<Rightarrow> sg @ ?body) = ?body"
    using assms(3) acs by auto
  have n: "length ?body = length ds + 1" using la lb assms(2) by simp
  have t: "take (length ?body - 3) ?body = ?a" using la n by simp
  have d: "drop (length ?body - 2) ?body = ?b" using la n assms(2) by simp
  have p: "?body ! (length ?body - 3) = CHR ''.''"
    using la n by (simp add: nth_append)
  show ?thesis
    unfolding two_decimals_def strip Let_def t d p using a b n assms(2) by simp
qed

lemma toFixed2_small:
  assumes "\<bar>x\<bar> < 10 ^ 21"
  shows "two_decimals (toFixed2 (Fin x))"
proof -
  let ?n = "\<lfloor>\<bar>x\<bar> * 100 + 1 / 2\<rfloor>"
  let ?m = "if ?n = 0 then ''0'' else decimal ?n"
  let ?m' = "if length ?m \<le> 2 then replicate (2 + 1 - length ?m) CHR ''0'' @ ?m else ?m"
  let ?s = "if x < 0 then ''-'' else ''''"
  have dm: "list_all is_digit ?m" by (simp add: decimal_digits is_digit_def)
  have d: "list_all is_digit ?m'" using dm zeros_digits by auto
  have l: "3 \<le> length ?m'" by auto
  have k: "(if length ?m \<le> 2 then 2 + 1 else length ?m) = length ?m'" by auto
  have "toFixed2 (Fin x) = ?s @ take (length ?m' - 2) ?m' @ ''.'' @ drop (length ?m' - 2) ?m'"
    using assms unfolding toFixed2_def Let_def k by simp
  moreover have "two_decimals (?s @ take (length ?m' - 2) ?m' @ ''.'' @ drop (length ?m' - 2) ?m')"
    by (rule two_decimals_point [OF d l]) simp
  ultimately show ?thesis by simp
qed

text \<open>
  C3, as the code has it. For every finite input of magnitude below \<open>10^21\<close>,
  \<open>formatMoney\<close> returns a sign, digits, a point and exactly two digits; for NaN and
  both infinities it returns \<open>0.00\<close>. (At \<open>10^21\<close> and above \<open>toFixed\<close> prints
  the exponent form, see the counterexample.)
\<close>

theorem formatMoney_two_decimals:
  assumes "\<bar>x\<bar> < 10 ^ 21"
  shows "two_decimals (formatMoney (Fin x))
    \<and> formatMoney NaN = ''0.00'' \<and> formatMoney PosInf = ''0.00'' \<and> formatMoney NegInf = ''0.00''"
proof -
  have z: "toFixed2 (Fin 0) = ''0.00''"
    by code_simp
  show ?thesis
    using toFixed2_small [OF assms] z by (simp add: formatMoney_def isFinite_def)
qed

theorem formatMoney_two_decimals_witness:
  "formatMoney (Fin (5 / 2)) = ''2.50'' \<and> two_decimals (formatMoney (Fin (5 / 2)))
    \<and> formatMoney NaN = ''0.00''"
proof -
  have "formatMoney (Fin (5 / 2)) = ''2.50''" by code_simp
  moreover have "\<bar>5 / 2 :: rat\<bar> < 10 ^ 21" by simp
  ultimately show ?thesis using formatMoney_two_decimals [of "5 / 2"] by simp
qed

text \<open>The finite input \<open>10^21\<close> (a double) is printed as \<open>1e+21\<close>, with no decimals.\<close>

theorem formatMoney_large_counterexample:
  "formatMoney (Fin (10 ^ 21)) = ''1e+21'' \<and> \<not> two_decimals (formatMoney (Fin (10 ^ 21)))"
  by code_simp

section \<open>Unit price of a line item\<close>

lemma digit_money: "is_digit c \<Longrightarrow> money_char c"
  by (auto simp: is_digit_def money_char_def)

lemma decimal_money: "list_all money_char (decimal n)"
  using decimal_digits [of n] by (auto simp: list_all_iff digit_money)

lemma point_after_first_money:
  "list_all money_char sig \<Longrightarrow>
   list_all money_char (if length sig \<le> 1 then sig else hd sig # CHR ''.'' # tl sig)"
  by (cases sig) (auto simp: money_char_def)

lemma exponent_form_money: "list_all money_char (exponent_form N)"
proof -
  define sig where "sig = rev (dropWhile (\<lambda>c. c = CHR ''0'') (rev (decimal N)))"
  have "set sig \<subseteq> set (decimal N)"
    unfolding sig_def using set_dropWhileD [of _ "\<lambda>c. c = CHR ''0''" "rev (decimal N)"] by auto
  then have "list_all money_char sig"
    using decimal_money [of N] by (auto simp: list_all_iff)
  then have "list_all money_char (if length sig \<le> 1 then sig else hd sig # CHR ''.'' # tl sig)"
    by (rule point_after_first_money)
  moreover have "list_all money_char ''e+''" by (simp add: money_char_def)
  ultimately show ?thesis
    using decimal_money unfolding exponent_form_def Let_def sig_def [symmetric]
    by (simp del: One_nat_def)
qed


lemma toFixed2_money: "list_all money_char (toFixed2 (Fin x))"
proof -
  define n where "n = \<lfloor>\<bar>x\<bar> * 100 + 1 / 2\<rfloor>"
  define m where "m = (if n = 0 then ''0'' else decimal n)"
  define m' where "m' = (if length m \<le> 2 then replicate (2 + 1 - length m) CHR ''0'' @ m else m)"
  define k where "k = (if length m \<le> 2 then 2 + 1 else length m)"
  define s where "s = (if x < 0 then ''-'' else '''')"
  have dm: "list_all money_char m"
    unfolding m_def by (simp add: decimal_money money_char_def)
  have d: "list_all money_char m'"
    unfolding m'_def using dm by (auto simp: list_all_iff money_char_def)
  have sm: "list_all money_char s"
    unfolding s_def by (simp add: money_char_def)
  have p: "list_all money_char ''.''" by (simp add: money_char_def)
  have body: "list_all money_char (s @ take (k - 2) m' @ ''.'' @ drop (k - 2) m')"
    using d sm p by (auto simp: list_all_iff dest: in_set_takeD in_set_dropD)
  have big: "list_all money_char (s @ exponent_form \<lfloor>\<bar>x\<bar>\<rfloor>)"
    using sm exponent_form_money by simp
  have "toFixed2 (Fin x) = (if \<bar>x\<bar> \<ge> 10 ^ 21 then s @ exponent_form \<lfloor>\<bar>x\<bar>\<rfloor>
      else s @ take (k - 2) m' @ ''.'' @ drop (k - 2) m')"
    unfolding toFixed2_def Let_def s_def k_def m'_def m_def n_def by simp
  then show ?thesis using body big by (simp del: list_all_append)
qed

lemma formatMoney_money: "list_all money_char (formatMoney v)"
  unfolding formatMoney_def by (cases "isFinite v") (auto simp: toFixed2_money isFinite_def split: jsnum.splits)

lemma money_not_names:
  assumes "list_all money_char s"
  shows "s \<noteq> ''NaN'' \<and> s \<noteq> ''Infinity'' \<and> s \<noteq> ''-Infinity''"
  using assms by (auto simp: money_char_def)

lemma toInt_finite: "isFinite (toInt q (Fin 1))"
  by (simp add: toInt_def isFinite_def)

lemma computeCols_item: "8 \<le> item (computeCols w)"
  by (simp add: computeCols_def Let_def)

lemma unitPrice_cases:
  "q \<noteq> NaN \<Longrightarrow> unitPrice rnd tot q = (if q = Fin 0 then tot else js_div rnd tot q)"
  by (simp add: unitPrice_def truthy_num_def)

lemma unitPrice_quotient:
  "\<forall>x y. tot = Fin x \<and> q = Fin y \<and> 0 < y \<longrightarrow> unitPrice rnd tot q = rnd (x / y)"
  by (simp add: unitPrice_def truthy_num_def js_div_def)

lemma item_row_cells:
  assumes "wrap (item_name it) (min (item c) ITEM_NAME_WRAP) = Some lines"
    and "qty c = 4" "price c = 7" "amount c = 8"
  shows "item_row numStr rnd c it =
    Some (rpad (case lines of [] \<Rightarrow> [] | l # _ \<Rightarrow> l) (item c) @ '' ''
      @ rAlign (numStr (toInt (quantity it) (Fin 1))) 4 @ '' ''
      @ rAlign (formatMoney (unitPrice rnd (item_amount it) (toInt (quantity it) (Fin 1)))) 7 @ '' ''
      @ rAlign (formatMoney (item_amount it)) 8)"
  by (simp add: item_row_def Let_def assms)

text \<open>
  C2. For every line item of the item table: the quantity read by \<open>toInt\<close> is finite;
  the unit price is the line total itself when the quantity is 0, and the quotient
  \<open>lineTotal / quantity\<close> otherwise (for finite operands the rounded exact quotient),
  so the division never has a zero divisor; the row is produced, and its Price and Amount
  cells print \<open>formatMoney\<close> of these numbers, which consists of digits, a point, a
  sign and exponent characters only: never \<open>NaN\<close> or \<open>Infinity\<close>.
\<close>

theorem item_row_unit_price:
  "let qtyN = toInt (quantity it) (Fin 1);
       lineTotal = item_amount it;
       unit = unitPrice rnd lineTotal qtyN;
       cols = computeCols w
   in isFinite qtyN
    \<and> unit = (if qtyN = Fin 0 then lineTotal else js_div rnd lineTotal qtyN)
    \<and> (\<forall>x y. lineTotal = Fin x \<and> qtyN = Fin y \<and> 0 < y \<longrightarrow> unit = rnd (x / y))
    \<and> (\<exists>first. item_row numStr rnd cols it =
          Some (rpad first (item cols) @ '' '' @ rAlign (numStr qtyN) 4 @ '' ''
            @ rAlign (formatMoney unit) 7 @ '' '' @ rAlign (formatMoney lineTotal) 8))
    \<and> list_all money_char (formatMoney unit) \<and> list_all money_char (formatMoney lineTotal)
    \<and> formatMoney unit \<notin> {''NaN'', ''Infinity'', ''-Infinity''}
    \<and> formatMoney lineTotal \<notin> {''NaN'', ''Infinity'', ''-Infinity''}"
proof -
  let ?q = "toInt (quantity it) (Fin 1)"
  let ?u = "unitPrice rnd (item_amount it) ?q"
  let ?c = "computeCols w"
  have f: "isFinite ?q" by (rule toInt_finite)
  then have nn: "?q \<noteq> NaN" by (auto simp: isFinite_def)
  note ue = unitPrice_cases [OF nn, of rnd "item_amount it"]
  note r = unitPrice_quotient [of "item_amount it" ?q rnd]
  have "0 < min (item ?c) ITEM_NAME_WRAP"
    using computeCols_item [of w] by (simp add: ITEM_NAME_WRAP_def)
  then obtain lines where wr: "wrap (item_name it) (min (item ?c) ITEM_NAME_WRAP) = Some lines"
    using wrap_returns by blast
  have cw: "qty ?c = 4" "price ?c = 7" "amount ?c = 8"
    by (simp_all add: computeCols_def Let_def)
  have row: "\<exists>first. item_row numStr rnd ?c it =
          Some (rpad first (item ?c) @ '' '' @ rAlign (numStr ?q) 4 @ '' ''
            @ rAlign (formatMoney ?u) 7 @ '' '' @ rAlign (formatMoney (item_amount it)) 8)"
    using item_row_cells [OF wr cw]
    by (rule exI [where x = "case lines of [] \<Rightarrow> [] | l # _ \<Rightarrow> l"])
  have m1: "list_all money_char (formatMoney ?u)" and m2: "list_all money_char (formatMoney (item_amount it))"
    by (rule formatMoney_money)+
  have n1: "formatMoney ?u \<notin> {''NaN'', ''Infinity'', ''-Infinity''}"
    using money_not_names [OF m1] by simp
  have n2: "formatMoney (item_amount it) \<notin> {''NaN'', ''Infinity'', ''-Infinity''}"
    using money_not_names [OF m2] by simp
  show ?thesis
    unfolding Let_def using f ue r row m1 m2 n1 n2 by - (intro conjI; assumption)
qed

theorem item_row_unit_price_witness:
  "unitPrice Fin (Fin 6) (toInt (Fin 2) (Fin 1)) = Fin 3
   \<and> unitPrice Fin (Fin 6) (toInt (Fin 0) (Fin 1)) = Fin 6
   \<and> item_row integerToString Fin (computeCols 32)
        \<lparr>item_name = ''Coffee'', quantity = Fin 2, item_amount = Fin 6\<rparr>
      = Some ''Coffee        2    3.00     6.00''"
proof -
  let ?it = "\<lparr>item_name = ''Coffee'', quantity = Fin 2, item_amount = Fin 6\<rparr>"
  let ?zero = "\<lparr>item_name = ''Coffee'', quantity = Fin 0, item_amount = Fin 6\<rparr>"
  note two = item_row_unit_price [of ?it Fin 32, unfolded Let_def]
  note none = item_row_unit_price [of ?zero Fin 32, unfolded Let_def]
  have q: "toInt (Fin 2) (Fin 1) = Fin 2" "toInt (Fin 0) (Fin 1) = Fin 0"
    by (simp_all add: toInt_def isFinite_def)
  have "unitPrice Fin (Fin 6) (toInt (Fin 2) (Fin 1)) = Fin (6 / 2)"
    using two [THEN conjunct2, THEN conjunct2, THEN conjunct1, rule_format, of 6 2] q by simp
  moreover have "unitPrice Fin (Fin 6) (toInt (Fin 0) (Fin 1)) = Fin 6"
    using none [THEN conjunct2, THEN conjunct1] q by simp
  moreover have "item_row integerToString Fin (computeCols 32) ?it
      = Some ''Coffee        2    3.00     6.00''"
    by code_simp
  ultimately show ?thesis by simp
qed

section \<open>Padding and the aligned row\<close>

lemma length_spaces: "length (spaces n) = nat n"
  by (simp add: spaces_def)

lemma length_rpad: "0 \<le> len \<Longrightarrow> int (length (rpad s len)) = len"
  by (auto simp: rpad_def js_slice_def spaces_def Let_def)

lemma length_lpad: "0 \<le> len \<Longrightarrow> int (length (lpad s len)) = len"
  by (auto simp: lpad_def js_slice_from_def js_slice_def spaces_def Let_def)

lemma lpad_short:
  "int (length s) \<le> len \<Longrightarrow> lpad s len = replicate (nat len - length s) CHR '' '' @ s"
  by (auto simp: lpad_def js_slice_from_def js_slice_def spaces_def Let_def nat_diff_distrib)

lemma lpad_long:
  "0 \<le> len \<Longrightarrow> len \<le> int (length s) \<Longrightarrow> lpad s len = drop (length s - nat len) s"
  by (auto simp: lpad_def js_slice_from_def js_slice_def spaces_def Let_def nat_diff_distrib)

text \<open>
  C4. For a width between 24 and 64, the aligned row is exactly \<open>width\<close> characters
  long, and its last 8 characters (the Amount column) are the value right-aligned: padded
  with spaces on the left when it is shorter than 8, cut to its last 8 characters when it
  is longer.
\<close>

theorem amountAlignedRow_width:
  assumes "24 \<le> width" and "width \<le> 64"
  shows "int (length (amountAlignedRow label val width)) = width
    \<and> drop (nat width - 8) (amountAlignedRow label val width) =
        (if length val \<le> 8 then replicate (8 - length val) CHR '' '' @ val
         else drop (length val - 8) val)"
proof -
  let ?left = "rpad label (width - 9)"
  let ?right = "lpad val 8"
  have row: "amountAlignedRow label val width = ?left @ spaces 1 @ ?right"
    using assms by (simp add: amountAlignedRow_def computeCols_def AMOUNT_GAP_def rAlign_def Let_def)
  have l: "int (length ?left) = width - 9"
    using assms by (intro length_rpad) simp
  have r: "int (length ?right) = 8"
    by (intro length_lpad) simp
  have len: "int (length (amountAlignedRow label val width)) = width"
    using l r by (simp add: row length_spaces)
  have "length (?left @ spaces 1) = nat width - 8"
    using l by (simp add: length_spaces)
  then have "drop (nat width - 8) (amountAlignedRow label val width) = ?right"
    by (simp add: row)
  moreover have "?right = (if length val \<le> 8 then replicate (8 - length val) CHR '' '' @ val
         else drop (length val - 8) val)"
    using lpad_short [of val 8] lpad_long [of 8 val] by auto
  ultimately show ?thesis using len by simp
qed

theorem amountAlignedRow_width_witness:
  "int (length (amountAlignedRow ''Total'' ''6.00'' 32)) = 32
    \<and> drop (nat 32 - 8) (amountAlignedRow ''Total'' ''6.00'' 32) = ''    6.00''"
  using amountAlignedRow_width [of 32 "''Total''" "''6.00''"] by (simp add: eval_nat_numeral)

section \<open>Resolving a saved printer (prefs.ts)\<close>

lemma js_find_SomeD:
  assumes "js_find P xs = Some x"
  shows "x \<in> set xs \<and> P x"
proof -
  from assms obtain ys where "filter P xs = x # ys"
    by (auto simp: js_find_def split: list.splits)
  then have "x \<in> set (filter P xs)" by simp
  then show ?thesis by simp
qed

lemma resolve_enabled:
  assumes "resolveSavedPrinterByIpTokenInList tok list = Some p"
  shows "enabled p = Some True \<and> (\<exists>q \<in> set list. p = normalizeProfile q \<and> enabled q \<noteq> Some False)"
proof -
  from assms obtain h tp where
    f: "js_find (prefs_match h tp) (map normalizeProfile list) = Some p"
    by (auto simp: resolveSavedPrinterByIpTokenInList_def Let_def split: option.splits)
  then have "p \<in> set (map normalizeProfile list) \<and> prefs_match h tp p"
    by (rule js_find_SomeD)
  then obtain q where q: "q \<in> set list" "p = normalizeProfile q" and m: "prefs_match h tp p"
    by auto
  from m have e: "enabled p = Some True"
    by (auto simp: prefs_match_def split: if_splits)
  with q(2) have "enabled q \<noteq> Some False"
    by (auto simp: normalizeProfile_def)
  with e q show ?thesis by blast
qed

lemma normalize_disabled: "enabled q = Some False \<Longrightarrow> \<not> prefs_match h tp (normalizeProfile q)"
  by (simp add: prefs_match_def normalizeProfile_def)

lemma resolve_skips_disabled:
  "resolveSavedPrinterByIpTokenInList tok list =
   resolveSavedPrinterByIpTokenInList tok (filter (\<lambda>q. enabled q \<noteq> Some False) list)"
proof -
  have "filter (prefs_match h tp) (map normalizeProfile list) =
      filter (prefs_match h tp) (map normalizeProfile (filter (\<lambda>q. enabled q \<noteq> Some False) list))"
    for h tp
    by (induction list) (auto simp: normalize_disabled)
  then show ?thesis
    by (simp add: resolveSavedPrinterByIpTokenInList_def js_find_def Let_def split: option.splits)
qed

text \<open>
  C10. \<open>resolveSavedPrinterByIpTokenInList\<close> never returns a disabled profile: a profile
  it returns is the normal form of a profile of the list that is not disabled, and its
  own flag is true; and the result is the same as on the list without its disabled
  profiles, whatever their hosts and ports are.
\<close>

theorem resolve_never_disabled:
  "(\<forall>p. resolveSavedPrinterByIpTokenInList tok list = Some p \<longrightarrow>
        enabled p = Some True
        \<and> (\<exists>q \<in> set list. p = normalizeProfile q \<and> enabled q \<noteq> Some False))
   \<and> resolveSavedPrinterByIpTokenInList tok list =
       resolveSavedPrinterByIpTokenInList tok (filter (\<lambda>q. enabled q \<noteq> Some False) list)"
  using resolve_enabled [of tok list] resolve_skips_disabled [of tok list] by blast

theorem resolve_never_disabled_witness:
  "resolveSavedPrinterByIpTokenInList ''192.168.1.10:9100''
     [\<lparr>name = Some ''Bar'', host = ''192.168.1.10'', port = Some (Fin 9100), widthDots = None,
        enabled = Some False, copies = None, isDefault = None\<rparr>,
      \<lparr>name = Some ''Kitchen'', host = ''192.168.1.10'', port = None, widthDots = None,
        enabled = None, copies = None, isDefault = None\<rparr>]
   = Some \<lparr>name = Some ''Kitchen'', host = ''192.168.1.10'', port = Some (Fin 9100),
        widthDots = Some (Fin 576), enabled = Some True, copies = Some 1, isDefault = Some False\<rparr>
   \<and> resolveSavedPrinterByIpTokenInList ''192.168.1.10:9100''
     [\<lparr>name = Some ''Bar'', host = ''192.168.1.10'', port = Some (Fin 9100), widthDots = None,
        enabled = Some False, copies = None, isDefault = None\<rparr>] = None"
proof -
  let ?bar = "\<lparr>name = Some ''Bar'', host = ''192.168.1.10'', port = Some (Fin 9100), widthDots = None,
        enabled = Some False, copies = None, isDefault = None\<rparr>"
  let ?kit = "\<lparr>name = Some ''Kitchen'', host = ''192.168.1.10'', port = None, widthDots = None,
        enabled = None, copies = None, isDefault = None\<rparr>"
  have a: "resolveSavedPrinterByIpTokenInList ''192.168.1.10:9100'' [?bar, ?kit] =
      resolveSavedPrinterByIpTokenInList ''192.168.1.10:9100'' [?kit]"
    using resolve_never_disabled [of "''192.168.1.10:9100''" "[?bar, ?kit]", THEN conjunct2] by simp
  have b: "resolveSavedPrinterByIpTokenInList ''192.168.1.10:9100'' [?bar] =
      resolveSavedPrinterByIpTokenInList ''192.168.1.10:9100'' []"
    using resolve_never_disabled [of "''192.168.1.10:9100''" "[?bar]", THEN conjunct2] by simp
  have c: "resolveSavedPrinterByIpTokenInList ''192.168.1.10:9100'' [?kit] =
      Some \<lparr>name = Some ''Kitchen'', host = ''192.168.1.10'', port = Some (Fin 9100),
        widthDots = Some (Fin 576), enabled = Some True, copies = Some 1, isDefault = Some False\<rparr>"
    by code_simp
  have d: "resolveSavedPrinterByIpTokenInList ''192.168.1.10:9100'' [] = None"
    by code_simp
  show ?thesis unfolding a b c d by simp
qed

section \<open>Matching a hint token against the stored profiles\<close>


















section \<open>Deduplication of the targets\<close>

lemma dedupe_subset: "set (dedupe key seen ts) \<subseteq> set ts"
  by (induction ts arbitrary: seen) auto

lemma dedupe_fresh: "t \<in> set (dedupe key seen ts) \<Longrightarrow> key t \<notin> set seen"
proof (induction ts arbitrary: seen)
  case Nil
  then show ?case by simp
next
  case (Cons a ts)
  show ?case
  proof (cases "key a \<in> set seen")
    case True
    with Cons.prems have "t \<in> set (dedupe key seen ts)" by simp
    then show ?thesis by (rule Cons.IH)
  next
    case False
    with Cons.prems have "t = a \<or> t \<in> set (dedupe key (key a # seen) ts)" by simp
    then show ?thesis
    proof
      assume "t = a" with False show ?thesis by simp
    next
      assume "t \<in> set (dedupe key (key a # seen) ts)"
      then have "key t \<notin> set (key a # seen)" by (rule Cons.IH)
      then show ?thesis by simp
    qed
  qed
qed

lemma dedupe_distinct_keys: "distinct (map key (dedupe key seen ts))"
  by (induction ts arbitrary: seen) (auto dest: dedupe_fresh)


lemma distinct_map_comp:
  assumes "distinct (map (\<lambda>x. g (f x)) xs)"
  shows "distinct (map f xs)"
  using assms by (induction xs) auto

lemma targetKey_identity: "targetKey numStr t = render_identity numStr (target_identity numStr t)"
  by (simp add: targetKey_def render_identity_def target_identity_def)

lemma itemKey_by_name_and_index:
  assumes "truthy i1" and "truthy i2"
    and "at_key i1 ''item_name'' = at_key i2 ''item_name''"
    and "at_key i1 ''display_index'' = at_key i2 ''display_index''"
  shows "itemKey numStr i1 = itemKey numStr i2"
  using assms by (simp add: itemKey_def)

text \<open>
  C7. The list of targets that is executed holds no two targets with the same host, port,
  section kind, block index and item key (nor with the same key string, of which these
  five are the parts). It is a selection of the resolved targets. The item key is a
  function of the item's name and display index: two items that agree on both have the
  same key, whichever objects they are.
\<close>

theorem executed_targets_distinct:
  "distinct (map (target_identity numStr) (uniqueTargets numStr targets))
   \<and> distinct (map (targetKey numStr) (uniqueTargets numStr targets))
   \<and> set (uniqueTargets numStr targets) \<subseteq> set targets
   \<and> (\<forall>i1 i2. truthy i1 \<and> truthy i2
         \<and> at_key i1 ''item_name'' = at_key i2 ''item_name''
         \<and> at_key i1 ''display_index'' = at_key i2 ''display_index''
        \<longrightarrow> itemKey numStr i1 = itemKey numStr i2)"
proof -
  have k: "distinct (map (targetKey numStr) (uniqueTargets numStr targets))"
    unfolding uniqueTargets_def by (rule dedupe_distinct_keys)
  then have "distinct (map (\<lambda>t. render_identity numStr (target_identity numStr t))
      (uniqueTargets numStr targets))"
    by (simp add: targetKey_identity [abs_def])
  then have "distinct (map (target_identity numStr) (uniqueTargets numStr targets))"
    by (rule distinct_map_comp)
  moreover have "set (uniqueTargets numStr targets) \<subseteq> set targets"
    unfolding uniqueTargets_def by (rule dedupe_subset)
  ultimately show ?thesis
    using k itemKey_by_name_and_index [of _ _ numStr] by blast
qed

theorem executed_targets_distinct_witness:
  "uniqueTargets integerToString
     [\<lparr>profile = \<lparr>name = None, host = ''10.0.0.5'', port = None, widthDots = None, enabled = None,
          copies = None, isDefault = None\<rparr>, ttype = kitchen, blockIdx = Some 0, titem = JUndef\<rparr>,
      \<lparr>profile = \<lparr>name = None, host = ''10.0.0.5'', port = None, widthDots = None, enabled = None,
          copies = None, isDefault = None\<rparr>, ttype = kitchen, blockIdx = Some 0, titem = JUndef\<rparr>,
      \<lparr>profile = \<lparr>name = None, host = ''10.0.0.5'', port = None, widthDots = None, enabled = None,
          copies = None, isDefault = None\<rparr>, ttype = cashier, blockIdx = None, titem = JUndef\<rparr>]
   = [\<lparr>profile = \<lparr>name = None, host = ''10.0.0.5'', port = None, widthDots = None, enabled = None,
          copies = None, isDefault = None\<rparr>, ttype = kitchen, blockIdx = Some 0, titem = JUndef\<rparr>,
      \<lparr>profile = \<lparr>name = None, host = ''10.0.0.5'', port = None, widthDots = None, enabled = None,
          copies = None, isDefault = None\<rparr>, ttype = cashier, blockIdx = None, titem = JUndef\<rparr>]
   \<and> distinct (map (target_identity integerToString)
     [\<lparr>profile = \<lparr>name = None, host = ''10.0.0.5'', port = None, widthDots = None, enabled = None,
          copies = None, isDefault = None\<rparr>, ttype = kitchen, blockIdx = Some 0, titem = JUndef\<rparr>,
      \<lparr>profile = \<lparr>name = None, host = ''10.0.0.5'', port = None, widthDots = None, enabled = None,
          copies = None, isDefault = None\<rparr>, ttype = cashier, blockIdx = None, titem = JUndef\<rparr>])"
proof -
  let ?p = "\<lparr>name = None, host = ''10.0.0.5'', port = None, widthDots = None, enabled = None,
          copies = None, isDefault = None\<rparr>"
  let ?k = "\<lparr>profile = ?p, ttype = kitchen, blockIdx = Some 0, titem = JUndef\<rparr>"
  let ?c = "\<lparr>profile = ?p, ttype = cashier, blockIdx = None, titem = JUndef\<rparr>"
  have u: "uniqueTargets integerToString [?k, ?k, ?c] = [?k, ?c]" by code_simp
  from executed_targets_distinct [of integerToString "[?k, ?k, ?c]", THEN conjunct1]
  have "distinct (map (target_identity integerToString) [?k, ?c])" unfolding u .
  with u show ?thesis by (rule conjI)
qed

section \<open>Resolution of the routing targets\<close>



















section \<open>The result of routing\<close>








section \<open>The paper cut never raises; the network cut stops after its first opcode\<close>

lemma invoke_cases:
  "invoke sdk c tr = (Inr True, tr @ [c]) \<or> invoke sdk c tr = (Inr False, tr @ [c])
   \<or> invoke sdk c tr = (Inl SdkError, tr @ [c])"
  by (simp add: invoke_def split: outcome.splits)

lemma net_printRaw_returns:
  "\<exists>tr'. net_printRaw caps sdk bytes tr = (Inr (), tr')
     \<and> set tr' \<subseteq> set tr \<union> {PrintRawBase64 bytes, PrintRawArray bytes}"
  using invoke_cases [of sdk "PrintRawBase64 bytes" tr]
    invoke_cases [of sdk "PrintRawArray bytes" "tr @ [PrintRawBase64 bytes]"]
  by (auto simp: net_printRaw_def ret_def try_catch_def io_bind_def)

lemma net_try_loop_first:
  "net_try_loop caps sdk (seq # rest) tr = net_printRaw caps sdk seq tr"
  using net_printRaw_returns [of caps sdk seq tr] by (auto simp: try_catch_def)

lemma net_text_returns:
  "\<exists>tr'. try_catch (if net_printText caps
                     then io_bind (invoke sdk (PrintText s)) (\<lambda>_. ret ())
                     else ret ()) (\<lambda>e. ret ()) tr = (Inr (), tr')
     \<and> set tr' \<subseteq> set tr \<union> {PrintText s}"
  using invoke_cases [of sdk "PrintText s" tr]
  by (auto simp: ret_def try_catch_def io_bind_def)

lemma net_native_returns:
  "\<exists>b tr'. (if net_cutPaper caps
            then try_catch (io_bind (invoke sdk CutPaper) (\<lambda>_. ret True)) (\<lambda>e. ret False)
            else ret False) tr = (Inr b, tr')
     \<and> set tr' \<subseteq> set tr \<union> {CutPaper}"
  using invoke_cases [of sdk CutPaper tr]
  by (auto simp: ret_def try_catch_def io_bind_def)

lemma net_cut_returns:
  "\<exists>tr'. net_cut caps sdk mode tr = (Inr (), tr')
     \<and> set tr' \<subseteq> set tr \<union> {PrintRawBase64 [0x1B, 0x64, 0x03], PrintRawArray [0x1B, 0x64, 0x03],
          PrintText (replicate 3 (CHR 0x0A)), CutPaper,
          PrintRawBase64 (hd (net_tries mode)), PrintRawArray (hd (net_tries mode))}"
proof -
  obtain t1 where 1: "net_printRaw caps sdk [0x1B, 0x64, 0x03] tr = (Inr (), t1)"
    and s1: "set t1 \<subseteq> set tr \<union> {PrintRawBase64 [0x1B, 0x64, 0x03], PrintRawArray [0x1B, 0x64, 0x03]}"
    using net_printRaw_returns by blast
  obtain t2 where 2: "try_catch (if net_printText caps
                     then io_bind (invoke sdk (PrintText (replicate 3 (CHR 0x0A)))) (\<lambda>_. ret ())
                     else ret ()) (\<lambda>e. ret ()) t1 = (Inr (), t2)"
    and s2: "set t2 \<subseteq> set t1 \<union> {PrintText (replicate 3 (CHR 0x0A))}"
    using net_text_returns by blast
  obtain b t3 where 3: "(if net_cutPaper caps
            then try_catch (io_bind (invoke sdk CutPaper) (\<lambda>_. ret True)) (\<lambda>e. ret False)
            else ret False) t2 = (Inr b, t3)"
    and s3: "set t3 \<subseteq> set t2 \<union> {CutPaper}"
    using net_native_returns by blast
  obtain t4 where 4: "net_printRaw caps sdk (hd (net_tries mode)) t3 = (Inr (), t4)"
    and s4: "set t4 \<subseteq> set t3 \<union> {PrintRawBase64 (hd (net_tries mode)), PrintRawArray (hd (net_tries mode))}"
    using net_printRaw_returns by blast
  have l: "net_try_loop caps sdk (net_tries mode) t3 = (Inr (), t4)"
    using 4 net_try_loop_first [of caps sdk "hd (net_tries mode)" "tl (net_tries mode)" t3]
    by (simp add: net_tries_def)
  have a: "try_catch (net_printRaw caps sdk [0x1B, 0x64, 0x03]) (\<lambda>e. ret ()) tr = (Inr (), t1)"
    unfolding try_catch_def 1 by simp
  have b1: "io_bind (try_catch (net_printRaw caps sdk [0x1B, 0x64, 0x03]) (\<lambda>e. ret ())) f tr = f () t1" for f
    unfolding io_bind_def a by simp
  have b2: "io_bind (try_catch (if net_printText caps
                     then io_bind (invoke sdk (PrintText (replicate 3 (CHR 0x0A)))) (\<lambda>_. ret ())
                     else ret ()) (\<lambda>e. ret ())) f t1 = f () t2" for f
    unfolding io_bind_def [of "try_catch _ _"] 2 by simp
  have b3: "io_bind (if net_cutPaper caps
            then try_catch (io_bind (invoke sdk CutPaper) (\<lambda>_. ret True)) (\<lambda>e. ret False)
            else ret False) f t2 = f b t3" for f
    unfolding io_bind_def [of "If _ _ _"] 3 by simp
  have "net_cut caps sdk mode tr = (if b then (Inr (), t3) else (Inr (), t4))"
    by (simp only: net_cut_def b1 b2 b3) (simp add: ret_def l)
  then show ?thesis using s1 s2 s3 s4 by (cases b) auto
qed

lemma nr_ret: "never_raises (ret x)"
  by (simp add: never_raises_def ret_def)

lemma never_raisesD: "never_raises m \<Longrightarrow> \<exists>x tr'. m tr = (Inr x, tr')"
  by (simp add: never_raises_def)

lemma nr_try_catch:
  assumes "\<And>e. never_raises (h e)"
  shows "never_raises (try_catch m h)"
  unfolding never_raises_def
proof
  fix tr
  obtain r t where m: "m tr = (r, t)" by (cases "m tr")
  show "\<exists>x tr'. try_catch m h tr = (Inr x, tr')"
  proof (cases r)
    case (Inl e)
    with assms [of e] m show ?thesis by (simp add: never_raises_def try_catch_def)
  next
    case (Inr x)
    with m show ?thesis by (simp add: try_catch_def)
  qed
qed

lemma nr_bind:
  assumes "never_raises m" and "\<And>x. never_raises (f x)"
  shows "never_raises (io_bind m f)"
  unfolding never_raises_def
proof
  fix tr
  from never_raisesD [OF assms(1)] obtain x t where "m tr = (Inr x, t)" by blast
  with assms(2) [of x] show "\<exists>y tr'. io_bind m f tr = (Inr y, tr')"
    by (simp add: never_raises_def io_bind_def)
qed

lemma nr_finally:
  assumes "never_raises m" and "never_raises fin"
  shows "never_raises (try_finally m fin)"
  unfolding never_raises_def
proof
  fix tr
  from never_raisesD [OF assms(1)] obtain x t where m: "m tr = (Inr x, t)" by blast
  from never_raisesD [OF assms(2)] obtain u t' where "fin t = (Inr u, t')" by blast
  with m show "\<exists>y tr'. try_finally m fin tr = (Inr y, tr')"
    by (simp add: try_finally_def)
qed

lemma nr_if: "never_raises a \<Longrightarrow> never_raises b \<Longrightarrow> never_raises (if c then a else b)"
  by simp

lemma nr_net_printRaw: "never_raises (net_printRaw caps sdk bytes)"
  unfolding net_printRaw_def by (intro nr_if nr_try_catch nr_ret)

lemma nr_net_try_loop: "never_raises (net_try_loop caps sdk seqs)"
  by (induction seqs) (simp_all add: nr_ret nr_try_catch)

lemma nr_net_cut: "never_raises (net_cut caps sdk mode)"
  unfolding net_cut_def
  by (intro nr_bind nr_if nr_try_catch nr_ret nr_net_try_loop)

lemma nr_tryBleRaw: "never_raises (tryBleRaw caps sdk bytes)"
  unfolding tryBleRaw_def by (intro nr_if nr_try_catch nr_ret)

lemma nr_sendClassicOnce: "never_raises (sendClassicOnce mac caps sdk bytes)"
  unfolding sendClassicOnce_def
  by (cases mac) (simp_all add: nr_ret nr_finally nr_try_catch)

lemma nr_ble_raw_loop: "never_raises (ble_raw_loop caps sdk seqs)"
  by (induction seqs) (simp_all add: nr_ret nr_bind nr_tryBleRaw)

lemma nr_ble_classic_loop: "never_raises (ble_classic_loop mac caps sdk seqs)"
  by (induction seqs) (simp_all add: nr_ret nr_bind nr_sendClassicOnce)

lemma nr_ble_cut: "never_raises (ble_cut mac caps sdk mode)"
  unfolding ble_cut_def
  by (intro nr_bind nr_if nr_try_catch nr_ret nr_tryBleRaw nr_ble_raw_loop nr_ble_classic_loop)

text \<open>The loop of \<open>BLEPrinterService.cut\<close>, by contrast, goes on to the next sequence
  exactly when a send has failed.\<close>

lemma ble_raw_loop_step:
  "tryBleRaw caps sdk seq tr = (Inr ok, tr') \<Longrightarrow>
   ble_raw_loop caps sdk (seq # rest) tr =
     (if ok then (Inr True, tr') else ble_raw_loop caps sdk rest tr')"
  by (simp add: io_bind_def ret_def)

text \<open>
  C9. Neither \<open>cut\<close> raises, whatever the library has and does. But the loop of
  \<open>NetPrinterService.cut\<close> over its three opcodes returns after the first one in every
  case, because \<open>printRaw\<close> never raises: the calls of a network cut are among the feed,
  the text feed, the native cut and the first opcode \<open>GS V 0/1\<close>. With a printer that
  rejects \<open>GS V 1\<close> and accepts everything else, the cut sends the feed, the text and
  \<open>GS V 1\<close> (twice, both rejected) and returns, although \<open>GS V 'B' 3\<close>, the next
  fallback, would have been accepted.
\<close>

theorem net_cut_gives_up_after_first_opcode:
  "never_raises (net_cut caps sdk mode)
   \<and> never_raises (ble_cut mac bcaps sdk mode)
   \<and> net_try_loop caps sdk (seq # rest) tr = net_printRaw caps sdk seq tr
   \<and> set (snd (net_cut caps sdk mode [])) \<subseteq>
        {PrintRawBase64 [0x1B, 0x64, 0x03], PrintRawArray [0x1B, 0x64, 0x03],
         PrintText (replicate 3 (CHR 0x0A)), CutPaper,
         PrintRawBase64 (if mode = full then [0x1D, 0x56, 0x00] else [0x1D, 0x56, 0x01]),
         PrintRawArray (if mode = full then [0x1D, 0x56, 0x00] else [0x1D, 0x56, 0x01])}
   \<and> net_cut rejecting_caps rejecting_sdk partial [] =
        (Inr (), [PrintRawBase64 [0x1B, 0x64, 0x03], PrintText (replicate 3 (CHR 0x0A)),
                  PrintRawBase64 [0x1D, 0x56, 0x01], PrintRawArray [0x1D, 0x56, 0x01]])
   \<and> rejecting_sdk [PrintRawBase64 [0x1B, 0x64, 0x03], PrintText (replicate 3 (CHR 0x0A)),
                     PrintRawBase64 [0x1D, 0x56, 0x01], PrintRawArray [0x1D, 0x56, 0x01]]
         (PrintRawBase64 [0x1D, 0x56, 0x42, 0x03]) = Resolves"
proof -
  from net_cut_returns [of caps sdk mode "[]"] obtain tr' where
    "net_cut caps sdk mode [] = (Inr (), tr')"
    and "set tr' \<subseteq> set [] \<union> {PrintRawBase64 [0x1B, 0x64, 0x03], PrintRawArray [0x1B, 0x64, 0x03],
          PrintText (replicate 3 (CHR 0x0A)), CutPaper,
          PrintRawBase64 (hd (net_tries mode)), PrintRawArray (hd (net_tries mode))}"
    by blast
  then have s: "set (snd (net_cut caps sdk mode [])) \<subseteq>
        {PrintRawBase64 [0x1B, 0x64, 0x03], PrintRawArray [0x1B, 0x64, 0x03],
         PrintText (replicate 3 (CHR 0x0A)), CutPaper,
         PrintRawBase64 (if mode = full then [0x1D, 0x56, 0x00] else [0x1D, 0x56, 0x01]),
         PrintRawArray (if mode = full then [0x1D, 0x56, 0x00] else [0x1D, 0x56, 0x01])}"
    by (simp add: net_tries_def)
  have e: "net_cut rejecting_caps rejecting_sdk partial [] =
        (Inr (), [PrintRawBase64 [0x1B, 0x64, 0x03], PrintText (replicate 3 (CHR 0x0A)),
                  PrintRawBase64 [0x1D, 0x56, 0x01], PrintRawArray [0x1D, 0x56, 0x01]])"
    by code_simp
  have r: "rejecting_sdk [PrintRawBase64 [0x1B, 0x64, 0x03], PrintText (replicate 3 (CHR 0x0A)),
                     PrintRawBase64 [0x1D, 0x56, 0x01], PrintRawArray [0x1D, 0x56, 0x01]]
         (PrintRawBase64 [0x1D, 0x56, 0x42, 0x03]) = Resolves"
    by code_simp
  from nr_net_cut nr_ble_cut net_try_loop_first s e r show ?thesis by (intro conjI)
qed

theorem net_cut_gives_up_after_first_opcode_witness:
  "fst (net_cut rejecting_caps rejecting_sdk partial []) = Inr ()
   \<and> PrintRawBase64 [0x1D, 0x56, 0x42, 0x03] \<notin> set (snd (net_cut rejecting_caps rejecting_sdk partial []))"
proof -
  note t = net_cut_gives_up_after_first_opcode [of rejecting_caps rejecting_sdk partial]
  from t [THEN conjunct2, THEN conjunct2, THEN conjunct2, THEN conjunct2, THEN conjunct1]
  show ?thesis by simp
qed

end
